theory Spec2Isabelle
  imports Complex_Main
begin

section \<open>Thread measurement and classification (src/main.py)\<close>

text \<open>
  A shallow embedding of the three functions of \<^verbatim>\<open>src/main.py\<close> that carry the
  logic: \<^verbatim>\<open>evitar_cruzamento\<close>, \<^verbatim>\<open>fator_decisao\<close> and \<^verbatim>\<open>medir_diametro\<close>.

  Modelling decisions:
  \<^item> A Python float is a binary64 number. A finite float is modelled by the real number it
    denotes, and the float operations of \<^verbatim>\<open>fator_decisao\<close> and \<^verbatim>\<open>evitar_cruzamento\<close>
    (the subtraction of line 55, the subtraction and the addition of lines 42--43) round
    their exact result with \<open>binary64\<close>: to the nearest number with a 53-bit significand,
    ties to even. A decimal literal such as \<^verbatim>\<open>20.9\<close> denotes \<open>binary64 (209/10)\<close>, the
    float Python reads it as. The exponent is unbounded: infinities and NaN are outside the
    model. Sums and differences of floats are never rounded in the subnormal range (they are
    exact there), and where a difference would overflow the model gives a value of magnitude
    at least \<open>2^1024\<close>, which the comparisons of the source order as they order infinity.
  \<^item> In \<^verbatim>\<open>medir_diametro\<close> the quotient and the product of lines 103--104 are kept exact:
    what is proved of them is which inputs reach them, and halving and doubling, which
    binary64 performs exactly.
  \<^item> Python dictionaries keep insertion order and the resolver depends on it, so
    \<^verbatim>\<open>TABELA_ROSCAS\<close> is a nested association list in the order of the literal.
  \<^item> Every place where the Python can raise (\<^verbatim>\<open>xs[0]\<close>, \<^verbatim>\<open>d[k]\<close>, \<^verbatim>\<open>max\<close> of an empty
    sequence, division by zero) is a branch returning \<open>Inl\<close> of an \<open>error\<close>.
\<close>

datatype error = IndexError | KeyError | ValueError | ZeroDivisionError

subsection \<open>Binary64 rounding\<close>

text \<open>The nearest integer, ties to even.\<close>

definition inteiro_par :: "real \<Rightarrow> int" where
  "inteiro_par v =
     (let f = \<lfloor>v\<rfloor>; r = v - of_int f
      in if r < 1/2 then f else if 1/2 < r then f + 1
         else if even f then f else f + 1)"

text \<open>
  The binary exponent of a positive real: \<open>expoente x = e\<close> with \<open>2^e \<le> x < 2^(e+1)\<close>,
  found by halving from above 2 and doubling from below 1.
\<close>

function expo_sobe :: "real \<Rightarrow> int" where
  "expo_sobe x = (if 2 \<le> x then expo_sobe (x / 2) + 1 else 0)"
  by pat_completeness auto
termination
proof (relation "measure (\<lambda>x. nat \<lceil>x\<rceil>)")
  show "wf (measure (\<lambda>x::real. nat \<lceil>x\<rceil>))" by simp
next
  fix x :: real assume x: "2 \<le> x"
  have "x / 2 \<le> of_int (\<lceil>x\<rceil> - 1)"
  proof -
    have "x \<le> of_int \<lceil>x\<rceil>" by simp
    have "x / 2 \<le> x - 1" using x by simp
    also have "\<dots> \<le> of_int \<lceil>x\<rceil> - 1" by simp
    finally show ?thesis by simp
  qed
  then have "\<lceil>x / 2\<rceil> \<le> \<lceil>x\<rceil> - 1" by (simp only: ceiling_le_iff)
  moreover have "0 < \<lceil>x\<rceil>" using x by (simp add: ceiling_less_iff less_ceiling_iff)
  ultimately show "(x / 2, x) \<in> measure (\<lambda>x. nat \<lceil>x\<rceil>)" by simp
qed

function expo_desce :: "real \<Rightarrow> int" where
  "expo_desce x = (if 0 < x \<and> x < 1 then expo_desce (2 * x) - 1 else 0)"
  by pat_completeness auto
termination
proof (relation "measure (\<lambda>x. nat \<lceil>1 / x\<rceil>)")
  show "wf (measure (\<lambda>x::real. nat \<lceil>1 / x\<rceil>))" by simp
next
  fix x :: real assume x: "0 < x \<and> x < 1"
  define y where "y = 1 / x"
  have y: "1 < y" using x by (simp add: y_def)
  have c2: "2 \<le> \<lceil>y\<rceil>" using y by (simp add: le_ceiling_iff)
  have "y / 2 \<le> of_int (\<lceil>y\<rceil> - 1)"
  proof (cases "2 \<le> y")
    case True
    have "y / 2 \<le> y - 1" using True by simp
    also have "\<dots> \<le> of_int \<lceil>y\<rceil> - 1" by simp
    finally show ?thesis by simp
  next
    case False
    then have "y / 2 \<le> 1" by simp
    also have "(1::real) \<le> of_int (\<lceil>y\<rceil> - 1)" using c2 by simp
    finally show ?thesis .
  qed
  then have le: "\<lceil>y / 2\<rceil> \<le> \<lceil>y\<rceil> - 1" by (simp only: ceiling_le_iff)
  have e: "1 / (2 * x) = y / 2" by (simp add: y_def)
  have "\<lceil>1 / (2 * x)\<rceil> \<le> \<lceil>y\<rceil> - 1" using le by (simp only: e)
  then have "nat \<lceil>1 / (2 * x)\<rceil> < nat \<lceil>y\<rceil>" using c2 by linarith
  then have "nat \<lceil>1 / (2 * x)\<rceil> < nat \<lceil>1 / x\<rceil>" by (simp only: y_def)
  then show "(2 * x, x) \<in> measure (\<lambda>x. nat \<lceil>1 / x\<rceil>)" by simp
qed

definition expoente :: "real \<Rightarrow> int" where
  "expoente x = (if 1 \<le> x then expo_sobe x else expo_desce x)"

text \<open>
  Rounding to binary64: the multiple of \<open>2^(e-52)\<close> nearest to \<open>x\<close>, ties to the even
  multiple, where \<open>e\<close> is the exponent of \<open>\<bar>x\<bar>\<close>.
\<close>

definition binary64 :: "real \<Rightarrow> real" where
  "binary64 x =
     (if x = 0 then 0
      else let u = 2 powi (expoente \<bar>x\<bar> - 52) in of_int (inteiro_par (x / u)) * u)"

text \<open>The recursive equations of the exponent are not rewrite rules by default.\<close>

declare expo_sobe.simps [simp del]
declare expo_desce.simps [simp del]

subsection \<open>The thread tables\<close>

type_synonym tabela_bitolas = "(string \<times> real) list"
type_synonym tabela_norma = "(string \<times> tabela_bitolas) list"
type_synonym tabela = "(string \<times> tabela_norma) list"

definition TABELA_ROSCAS :: tabela where
  "TABELA_ROSCAS =
    [(''BSP'',
        [(''externa'',
            [(''1/8'', binary64 (97/10)), (''1/4'', binary64 (132/10)),
             (''3/8'', binary64 (167/10)), (''1/2'', binary64 (209/10)),
             (''3/4'', binary64 (264/10)), (''1'', binary64 (332/10))]),
         (''interna'',
            [(''1/8'', binary64 (85/10)), (''1/4'', binary64 (118/10)),
             (''3/8'', binary64 (153/10)), (''1/2'', binary64 (190/10)),
             (''3/4'', binary64 (245/10)), (''1'', binary64 (303/10))])]),
     (''NPT'',
        [(''externa'',
            [(''1/8'', binary64 (102/10)), (''1/4'', binary64 (137/10)),
             (''3/8'', binary64 (171/10)), (''1/2'', binary64 (213/10)),
             (''3/4'', binary64 (267/10)), (''1'', binary64 (335/10))]),
         (''interna'',
            [(''1/8'', binary64 (87/10)), (''1/4'', binary64 (119/10)),
             (''3/8'', binary64 (155/10)), (''1/2'', binary64 (193/10)),
             (''3/4'', binary64 (249/10)), (''1'', binary64 (308/10))])]),
     (''UNF'',
        [(''externa'',
            [(''1/4'', binary64 (635/100)), (''3/8'', binary64 (953/100)),
             (''1/2'', binary64 (127/10)), (''3/4'', binary64 (1905/100)),
             (''1'', binary64 (254/10))]),
         (''interna'',
            [(''1/4'', binary64 (58/10)), (''3/8'', binary64 (88/10)),
             (''1/2'', binary64 (120/10)), (''3/4'', binary64 (183/10)),
             (''1'', binary64 (245/10))])])]"

text \<open>\<^verbatim>\<open>d[k]\<close> on a dictionary: the value, or \<^verbatim>\<open>KeyError\<close>.\<close>

definition getitem :: "('k \<times> 'v) list \<Rightarrow> 'k \<Rightarrow> error + 'v" where
  "getitem d k = (case map_of d k of None \<Rightarrow> Inl KeyError | Some v \<Rightarrow> Inr v)"

subsection \<open>\<^verbatim>\<open>evitar_cruzamento\<close>\<close>

text \<open>
  The loop over \<^verbatim>\<open>medidas_ordenadas[1:]\<close>; the third argument is \<^verbatim>\<open>medidas_ajustadas\<close>.
  \<^verbatim>\<open>medidas_ajustadas[-1]\<close> raises \<^verbatim>\<open>IndexError\<close> on an empty list.
\<close>

fun laco_ajuste :: "real \<Rightarrow> real list \<Rightarrow> real list \<Rightarrow> error + real list" where
  "laco_ajuste distancia_minima [] medidas_ajustadas = Inr medidas_ajustadas"
| "laco_ajuste distancia_minima (medida # resto) medidas_ajustadas =
     (if medidas_ajustadas = [] then Inl IndexError
      else
        let ultima = last medidas_ajustadas;
            medida' = (if binary64 (medida - ultima) < distancia_minima
                       then binary64 (ultima + distancia_minima) else medida)
        in laco_ajuste distancia_minima resto (medidas_ajustadas @ [medida']))"

text \<open>
  \<^verbatim>\<open>sorted(medidas)\<close> is a stable ascending sort; \<^verbatim>\<open>medidas_ordenadas[0]\<close> raises
  \<^verbatim>\<open>IndexError\<close> when the list is empty.
\<close>

definition evitar_cruzamento :: "real list \<Rightarrow> real \<Rightarrow> error + real list" where
  "evitar_cruzamento medidas distancia_minima =
     (case sort medidas of
        [] \<Rightarrow> Inl IndexError
      | primeira # resto \<Rightarrow> laco_ajuste distancia_minima resto [primeira])"

text \<open>The default value of the parameter \<^verbatim>\<open>distancia_minima\<close>.\<close>

definition distancia_minima_padrao :: real where
  "distancia_minima_padrao = binary64 (2/10)"

subsection \<open>\<^verbatim>\<open>fator_decisao\<close>\<close>

type_synonym candidato = "string \<times> string \<times> real"

text \<open>The inner loop, over \<^verbatim>\<open>dados[tipo].items()\<close>, appending to \<^verbatim>\<open>candidatos\<close>.\<close>

fun laco_bitolas ::
  "real \<Rightarrow> string \<Rightarrow> tabela_bitolas \<Rightarrow> candidato list \<Rightarrow> candidato list" where
  "laco_bitolas diametro_medido norma [] candidatos = candidatos"
| "laco_bitolas diametro_medido norma ((bitola, diametro_ref) # resto) candidatos =
     laco_bitolas diametro_medido norma resto
       (if \<bar>binary64 (diametro_medido - diametro_ref)\<bar> \<le> binary64 (3/10)
        then candidatos @ [(norma, bitola, diametro_ref)] else candidatos)"

text \<open>The outer loop, over \<^verbatim>\<open>TABELA_ROSCAS.items()\<close>.\<close>

fun laco_normas ::
  "real \<Rightarrow> string \<Rightarrow> tabela \<Rightarrow> candidato list \<Rightarrow> error + candidato list" where
  "laco_normas diametro_medido tipo [] candidatos = Inr candidatos"
| "laco_normas diametro_medido tipo ((norma, dados) # resto) candidatos =
     (case getitem dados tipo of
        Inl e \<Rightarrow> Inl e
      | Inr bitolas \<Rightarrow>
          laco_normas diametro_medido tipo resto
            (laco_bitolas diametro_medido norma bitolas candidatos))"

text \<open>Lines 52--56: the candidate list built by the two loops, from an empty list.\<close>

definition coletar_candidatos :: "real \<Rightarrow> string \<Rightarrow> error + candidato list" where
  "coletar_candidatos diametro_medido tipo =
     laco_normas diametro_medido tipo TABELA_ROSCAS []"

definition tipo_de :: "bool \<Rightarrow> string" where
  "tipo_de interna = (if interna then ''interna'' else ''externa'')"

text \<open>
  The result is the 5-tuple \<^verbatim>\<open>(norma, bitola, diametro_ref, confianca, tipo)\<close>; the
  first three components are \<^verbatim>\<open>None\<close> when nothing matches.
\<close>

type_synonym decisao = "string option \<times> string option \<times> real option \<times> real \<times> string"

definition fator_decisao :: "real \<Rightarrow> bool \<Rightarrow> error + decisao" where
  "fator_decisao diametro_medido interna =
     (let tipo = tipo_de interna in
      (case coletar_candidatos diametro_medido tipo of
         Inl e \<Rightarrow> Inl e
       | Inr candidatos \<Rightarrow>
           (if candidatos = [] then Inr (None, None, None, 0, tipo)
            else
              (let medidas = map (\<lambda>c. snd (snd c)) candidatos in
               (case evitar_cruzamento medidas distancia_minima_padrao of
                  Inl e \<Rightarrow> Inl e
                | Inr _ \<Rightarrow>
                    (case candidatos of
                       [] \<Rightarrow> Inl IndexError
                     | (norma, bitola, diametro_ref) # _ \<Rightarrow>
                         Inr (Some norma, Some bitola, Some diametro_ref, 95, tipo)))))))"

subsection \<open>\<^verbatim>\<open>medir_diametro\<close>\<close>

text \<open>
  The OpenCV calls are outside the model; \<open>medir_diametro\<close> takes what they return:
  \<^item> \<open>circles\<close>: the result of \<^verbatim>\<open>cv2.HoughCircles\<close>, \<^verbatim>\<open>None\<close> or the rows
    \<^verbatim>\<open>(x, y, r)\<close> of \<^verbatim>\<open>circles[0, :]\<close>;
  \<^item> \<open>retangulos\<close>: \<^verbatim>\<open>cv2.boundingRect(cnt)\<close> for each contour, in the order of the loop.
  The annotated debug image is written and never read, so it is left out. The radii that
  \<^verbatim>\<open>HoughCircles\<close> returns are bounded by \<^verbatim>\<open>maxRadius=300\<close>, so the 64-bit integers of
  numpy never wrap and are modelled by \<^typ>\<open>int\<close>.
\<close>

type_synonym circulo = "real \<times> real \<times> real"
type_synonym retangulo = "int \<times> int \<times> int \<times> int"

text \<open>\<^verbatim>\<open>np.round(v).astype("int")\<close>: round half to even.\<close>

definition np_round :: "real \<Rightarrow> int" where
  "np_round v =
     (let f = \<lfloor>v\<rfloor>; r = v - of_int f
      in if r < 1/2 then f else if 1/2 < r then f + 1
         else if even f then f else f + 1)"

text \<open>\<^verbatim>\<open>max(seq)\<close>: \<^verbatim>\<open>ValueError\<close> on an empty sequence.\<close>

definition py_max :: "int list \<Rightarrow> error + int" where
  "py_max xs = (case xs of [] \<Rightarrow> Inl ValueError | x # resto \<Rightarrow> Inr (fold max resto x))"

text \<open>\<^verbatim>\<open>a / b\<close> on floats: \<^verbatim>\<open>ZeroDivisionError\<close> when \<open>b\<close> is zero.\<close>

definition py_div :: "real \<Rightarrow> real \<Rightarrow> error + real" where
  "py_div a b = (if b = 0 then Inl ZeroDivisionError else Inr (a / b))"

text \<open>Lines 78--81: \<^verbatim>\<open>diametro_px\<close>, which stays \<open>-1\<close> when \<open>circles\<close> is \<^verbatim>\<open>None\<close>.\<close>

definition raios :: "circulo list \<Rightarrow> int list" where
  "raios cs = map (\<lambda>(x, y, r). np_round r) cs"

definition calcular_diametro_px :: "circulo list option \<Rightarrow> error + int" where
  "calcular_diametro_px circles =
     (case circles of
        None \<Rightarrow> Inr (- 1)
      | Some cs \<Rightarrow>
          (case py_max (raios cs) of Inl e \<Rightarrow> Inl e | Inr m \<Rightarrow> Inr (m * 2)))"

text \<open>Lines 89--93: the loop over the contours; the second argument is \<^verbatim>\<open>largura_cartao_px\<close>.\<close>

fun laco_contornos :: "retangulo list \<Rightarrow> int \<Rightarrow> int" where
  "laco_contornos [] largura_cartao_px = largura_cartao_px"
| "laco_contornos ((x, y, w, h) # resto) largura_cartao_px =
     laco_contornos resto
       (if 80 < w \<and> w < 1200 \<and> 40 < h \<and> h < 800
        then max largura_cartao_px w else largura_cartao_px)"

text \<open>Line 103: \<^verbatim>\<open>escala = 86.0 / largura_cartao_px\<close>.\<close>

definition calcular_escala :: "int \<Rightarrow> error + real" where
  "calcular_escala largura_cartao_px = py_div 86 (of_int largura_cartao_px)"

definition medir_diametro :: "circulo list option \<Rightarrow> retangulo list \<Rightarrow> error + real" where
  "medir_diametro circles retangulos =
     (case calcular_diametro_px circles of
        Inl e \<Rightarrow> Inl e
      | Inr diametro_px \<Rightarrow>
          (let largura_cartao_px = laco_contornos retangulos 0 in
           (if circles = None \<or> largura_cartao_px = 0 then Inr (- 1)
            else
              (case calcular_escala largura_cartao_px of
                 Inl e \<Rightarrow> Inl e
               | Inr escala \<Rightarrow> Inr (of_int diametro_px * escala)))))"

subsection \<open>The catalogue as the specification reads it\<close>

text \<open>
  The entries of one bore kind, flattened in declaration order: standards in the order
  of the table, sizes in the order of each sub-table.
\<close>

definition entradas :: "string \<Rightarrow> candidato list" where
  "entradas tipo =
     concat (map (\<lambda>(norma, dados).
       concat (map (\<lambda>(t, bitolas).
         if t = tipo then map (\<lambda>(bitola, diametro_ref). (norma, bitola, diametro_ref)) bitolas
         else []) dados)) TABELA_ROSCAS)"

text \<open>An entry qualifies when it passes the test of line 55.\<close>

definition qualifica :: "real \<Rightarrow> candidato \<Rightarrow> bool" where
  "qualifica diametro_medido c =
     (\<bar>binary64 (diametro_medido - snd (snd c))\<bar> \<le> binary64 (3/10))"

text \<open>
  The resolver with the collision-avoidance pass removed: \<open>fator_decisao\<close> without
  lines 59--60.
\<close>

definition fator_decisao_sem_cruzamento :: "real \<Rightarrow> bool \<Rightarrow> error + decisao" where
  "fator_decisao_sem_cruzamento diametro_medido interna =
     (let tipo = tipo_de interna in
      (case coletar_candidatos diametro_medido tipo of
         Inl e \<Rightarrow> Inl e
       | Inr candidatos \<Rightarrow>
           (if candidatos = [] then Inr (None, None, None, 0, tipo)
            else
              (case candidatos of
                 [] \<Rightarrow> Inl IndexError
               | (norma, bitola, diametro_ref) # _ \<Rightarrow>
                   Inr (Some norma, Some bitola, Some diametro_ref, 95, tipo)))))"

text \<open>
  What the loop of the pass leaves between consecutive elements: the next one is at least
  \<open>d\<close> above as line 42 measures it, or it is the sum that line 43 computes.
\<close>

definition passo :: "real \<Rightarrow> real \<Rightarrow> real \<Rightarrow> bool" where
  "passo d a b = (d \<le> binary64 (b - a) \<or> b = binary64 (a + d))"

definition espacadas :: "real \<Rightarrow> real list \<Rightarrow> bool" where
  "espacadas d ys = successively (passo d) ys"

text \<open>The reals that are floats: rounding leaves them unchanged.\<close>

definition representavel :: "real \<Rightarrow> bool" where
  "representavel x = (binary64 x = x)"


section \<open>Properties of binary64 rounding\<close>

lemma dois_powi_suc: "(2::real) powi (e + 1) = 2 * 2 powi e"
  by (simp add: power_int_add_1)

lemma expo_sobe_faixa:
  "1 \<le> x \<Longrightarrow> 2 powi (expo_sobe x) \<le> x \<and> x < 2 powi (expo_sobe x + 1)"
proof (induction x rule: expo_sobe.induct)
  case (1 x)
  show ?case
  proof (cases "2 \<le> x")
    case True
    then have "1 \<le> x / 2" by simp
    from "1.IH" [OF True this]
    have ih: "2 powi (expo_sobe (x / 2)) \<le> x / 2" "x / 2 < 2 powi (expo_sobe (x / 2) + 1)"
      by simp_all
    have e: "expo_sobe x = expo_sobe (x / 2) + 1"
      using True by (simp add: expo_sobe.simps [of x])
    have a: "(2::real) powi (expo_sobe (x / 2) + 1) = 2 * 2 powi (expo_sobe (x / 2))"
      by (rule dois_powi_suc)
    have b: "(2::real) powi (expo_sobe (x / 2) + 1 + 1) = 2 * 2 powi (expo_sobe (x / 2) + 1)"
      by (rule dois_powi_suc)
    have "2 powi (expo_sobe (x / 2) + 1) \<le> x" using ih(1) a by linarith
    moreover have "x < 2 powi (expo_sobe (x / 2) + 1 + 1)" using ih(2) b by linarith
    ultimately show ?thesis by (simp only: e)
  next
    case False
    then have "expo_sobe x = 0" by (simp add: expo_sobe.simps [of x])
    then show ?thesis using False "1.prems" by simp
  qed
qed

lemma expo_desce_faixa:
  "0 < x \<Longrightarrow> x < 2 \<Longrightarrow> 2 powi (expo_desce x) \<le> x \<and> x < 2 powi (expo_desce x + 1)"
proof (induction x rule: expo_desce.induct)
  case (1 x)
  show ?case
  proof (cases "x < 1")
    case True
    then have c: "0 < x \<and> x < 1" using "1.prems" by simp
    have "0 < 2 * x" "2 * x < 2" using c by simp_all
    from "1.IH" [OF c this]
    have ih: "2 powi (expo_desce (2 * x)) \<le> 2 * x"
             "2 * x < 2 powi (expo_desce (2 * x) + 1)" by simp_all
    have e: "expo_desce x + 1 = expo_desce (2 * x)"
      using c by (simp add: expo_desce.simps [of x])
    have a: "(2::real) powi (expo_desce x + 1) = 2 * 2 powi (expo_desce x)"
      by (rule dois_powi_suc)
    have b: "(2::real) powi (expo_desce x + 1 + 1) = 2 * 2 powi (expo_desce x + 1)"
      by (rule dois_powi_suc)
    have "2 powi (expo_desce x + 1) \<le> 2 * x"
      using ih(1) by (simp only: e)
    then have "2 powi (expo_desce x) \<le> x" using a by linarith
    moreover have "2 * x < 2 powi (expo_desce x + 1 + 1)"
      using ih(2) by (simp only: e)
    then have "x < 2 powi (expo_desce x + 1)" using b by linarith
    ultimately show ?thesis by simp
  next
    case False
    then have "expo_desce x = 0" by (simp add: expo_desce.simps [of x])
    then show ?thesis using False "1.prems" by simp
  qed
qed

lemma expoente_faixa:
  "0 < x \<Longrightarrow> 2 powi (expoente x) \<le> x \<and> x < 2 powi (expoente x + 1)"
proof (cases "1 \<le> x")
  case True
  then show ?thesis using expo_sobe_faixa [OF True] by (simp add: expoente_def)
next
  case False
  assume "0 < x"
  then show ?thesis using False expo_desce_faixa [of x] by (simp add: expoente_def)
qed

lemma expoente_unico:
  assumes "0 < x" "2 powi e \<le> x" "x < 2 powi (e + 1)"
  shows "expoente x = e"
proof (rule ccontr)
  assume ne: "expoente x \<noteq> e"
  from expoente_faixa [OF assms(1)]
  have f: "2 powi (expoente x) \<le> x" "x < 2 powi (expoente x + 1)" by simp_all
  show False
  proof (cases "expoente x < e")
    case True
    then have "expoente x + 1 \<le> e" by simp
    then have "(2::real) powi (expoente x + 1) \<le> 2 powi e"
      by (rule power_int_increasing) simp
    with f(2) assms(2) show False by linarith
  next
    case False
    with ne have "e + 1 \<le> expoente x" by simp
    then have "(2::real) powi (e + 1) \<le> 2 powi (expoente x)"
      by (rule power_int_increasing) simp
    with f(1) assms(3) show False by linarith
  qed
qed

lemma inteiro_par_of_int: "inteiro_par (of_int n) = n"
  by (simp add: inteiro_par_def)

lemma inteiro_par_floor: "inteiro_par v = \<lfloor>v\<rfloor> \<or> inteiro_par v = \<lfloor>v\<rfloor> + 1"
  by (simp add: inteiro_par_def Let_def)

lemma inteiro_par_mono:
  assumes "a \<le> b"
  shows "inteiro_par a \<le> inteiro_par b"
proof (cases "\<lfloor>a\<rfloor> < \<lfloor>b\<rfloor>")
  case True
  have "inteiro_par a \<le> \<lfloor>a\<rfloor> + 1" using inteiro_par_floor [of a] by auto
  also have "\<dots> \<le> \<lfloor>b\<rfloor>" using True by simp
  also have "\<dots> \<le> inteiro_par b" using inteiro_par_floor [of b] by auto
  finally show ?thesis .
next
  case False
  moreover have "\<lfloor>a\<rfloor> \<le> \<lfloor>b\<rfloor>" using assms by (rule floor_mono)
  ultimately have e: "\<lfloor>a\<rfloor> = \<lfloor>b\<rfloor>" by simp
  have "a - of_int \<lfloor>a\<rfloor> \<le> b - of_int \<lfloor>a\<rfloor>" using assms by simp
  then show ?thesis
    unfolding inteiro_par_def Let_def e [symmetric] by auto
qed

lemma inteiro_par_minus: "inteiro_par (- v) = - inteiro_par v"
proof (cases "v = of_int \<lfloor>v\<rfloor>")
  case True
  then obtain n where "v = of_int n" ..
  then have "- v = of_int (- n)" by simp
  then show ?thesis
    using \<open>v = of_int n\<close> by (simp only: inteiro_par_of_int)
next
  case False
  then have l: "of_int \<lfloor>v\<rfloor> < v" using of_int_floor_le [of v] by linarith
  have u: "v < of_int \<lfloor>v\<rfloor> + 1" by linarith
  have "\<lfloor>- v\<rfloor> = - \<lfloor>v\<rfloor> - 1"
  proof (rule floor_unique)
    have c: "real_of_int (- \<lfloor>v\<rfloor> - 1) = - real_of_int \<lfloor>v\<rfloor> - 1" by simp
    show "of_int (- \<lfloor>v\<rfloor> - 1) \<le> - v" using u c by linarith
    show "- v < of_int (- \<lfloor>v\<rfloor> - 1) + 1" using l c by linarith
  qed
  then show ?thesis
    using l u unfolding inteiro_par_def Let_def by auto
qed

lemma binary64_0: "binary64 0 = 0"
  by (simp add: binary64_def)

lemma binary64_minus: "binary64 (- x) = - binary64 x"
  by (simp add: binary64_def Let_def inteiro_par_minus)

lemma binary64_pos_eq:
  assumes "0 < x" "2 powi e \<le> x" "x < 2 powi (e + 1)"
  shows "binary64 x = of_int (inteiro_par (x / 2 powi (e - 52))) * 2 powi (e - 52)"
  using assms expoente_unico [OF assms] by (simp add: binary64_def Let_def)

lemma dois_powi_52: "(2::real) powi e = 2 ^ 52 * 2 powi (e - 52)"
proof -
  have "(2::real) powi (52 + (e - 52)) = 2 powi 52 * 2 powi (e - 52)"
    by (rule power_int_add) simp
  then show ?thesis by simp
qed

lemma dois_powi_53: "(2::real) powi (e + 1) = 2 ^ 53 * 2 powi (e - 52)"
proof -
  have "(2::real) powi (53 + (e - 52)) = 2 powi 53 * 2 powi (e - 52)"
    by (rule power_int_add) simp
  moreover have "53 + (e - 52) = e + 1" by simp
  ultimately show ?thesis by simp
qed

lemma mantissa_faixa:
  assumes "0 < x" "2 powi e \<le> x" "x < 2 powi (e + 1)"
  shows "2 ^ 52 \<le> inteiro_par (x / 2 powi (e - 52))"
    and "inteiro_par (x / 2 powi (e - 52)) \<le> 2 ^ 53"
proof -
  let ?u = "(2::real) powi (e - 52)"
  have u: "0 < ?u" by simp
  have "2 ^ 52 * ?u \<le> x" using assms(2) dois_powi_52 [of e] by simp
  then have "2 ^ 52 \<le> x / ?u" using u by (simp add: pos_le_divide_eq)
  then have "real_of_int (2 ^ 52) \<le> x / ?u" by simp
  from inteiro_par_mono [OF this] show "2 ^ 52 \<le> inteiro_par (x / ?u)"
    by (simp only: inteiro_par_of_int)
  have "x \<le> 2 ^ 53 * ?u" using assms(3) dois_powi_53 [of e] by simp
  then have "x / ?u \<le> 2 ^ 53" using u by (simp add: pos_divide_le_eq)
  then have "x / ?u \<le> real_of_int (2 ^ 53)" by simp
  from inteiro_par_mono [OF this] show "inteiro_par (x / ?u) \<le> 2 ^ 53"
    by (simp only: inteiro_par_of_int)
qed

lemma binary64_faixa:
  assumes "0 < x" "2 powi e \<le> x" "x < 2 powi (e + 1)"
  shows "2 powi e \<le> binary64 x" and "binary64 x \<le> 2 powi (e + 1)"
proof -
  let ?u = "(2::real) powi (e - 52)"
  let ?n = "inteiro_par (x / ?u)"
  have u: "0 < ?u" by simp
  have b: "binary64 x = of_int ?n * ?u" by (rule binary64_pos_eq [OF assms])
  from mantissa_faixa [OF assms] have n: "2 ^ 52 \<le> ?n" "?n \<le> 2 ^ 53" .
  have "(2::real) ^ 52 \<le> of_int ?n" using n(1) by (metis of_int_le_iff of_int_numeral of_int_power)
  then have "2 ^ 52 * ?u \<le> of_int ?n * ?u" using u by (simp only: mult_le_cancel_right_pos)
  then show "2 powi e \<le> binary64 x" by (simp only: b dois_powi_52 [of e])
  have "of_int ?n \<le> (2::real) ^ 53" using n(2) by (metis of_int_le_iff of_int_numeral of_int_power)
  then have "of_int ?n * ?u \<le> 2 ^ 53 * ?u" using u by (simp only: mult_le_cancel_right_pos)
  then show "binary64 x \<le> 2 powi (e + 1)" by (simp only: b dois_powi_53 [of e])
qed

lemma binary64_pos: "0 < x \<Longrightarrow> 0 < binary64 x"
proof -
  assume x: "0 < x"
  from expoente_faixa [OF x] have "2 powi (expoente x) \<le> x" "x < 2 powi (expoente x + 1)"
    by simp_all
  from binary64_faixa(1) [OF x this] have "2 powi (expoente x) \<le> binary64 x" .
  moreover have "(0::real) < 2 powi (expoente x)" by simp
  ultimately show ?thesis by linarith
qed

lemma binary64_neg: "x < 0 \<Longrightarrow> binary64 x < 0"
  using binary64_pos [of "- x"] by (simp add: binary64_minus)

lemma binary64_mono_pos:
  assumes "0 < x" "x \<le> y"
  shows "binary64 x \<le> binary64 y"
proof -
  have y: "0 < y" using assms by linarith
  let ?ex = "expoente x" and ?ey = "expoente y"
  from expoente_faixa [OF assms(1)] have fx: "2 powi ?ex \<le> x" "x < 2 powi (?ex + 1)" by simp_all
  from expoente_faixa [OF y] have fy: "2 powi ?ey \<le> y" "y < 2 powi (?ey + 1)" by simp_all
  have le: "?ex \<le> ?ey"
  proof (rule ccontr)
    assume "\<not> ?ex \<le> ?ey"
    then have "?ey + 1 \<le> ?ex" by simp
    then have "(2::real) powi (?ey + 1) \<le> 2 powi ?ex" by (rule power_int_increasing) simp
    with fx(1) fy(2) assms(2) show False by linarith
  qed
  show ?thesis
  proof (cases "?ex = ?ey")
    case True
    let ?u = "(2::real) powi (?ex - 52)"
    have u: "0 < ?u" by simp
    have bx: "binary64 x = of_int (inteiro_par (x / ?u)) * ?u"
      by (rule binary64_pos_eq [OF assms(1) fx])
    have by': "binary64 y = of_int (inteiro_par (y / ?u)) * ?u"
      using binary64_pos_eq [OF y fy] by (simp only: True)
    have "x / ?u \<le> y / ?u" using assms(2) u by (simp add: divide_right_mono)
    from inteiro_par_mono [OF this]
    have "real_of_int (inteiro_par (x / ?u)) \<le> real_of_int (inteiro_par (y / ?u))" by simp
    then have "of_int (inteiro_par (x / ?u)) * ?u \<le> of_int (inteiro_par (y / ?u)) * ?u"
      using u by (simp only: mult_le_cancel_right_pos)
    then show ?thesis by (simp only: bx by')
  next
    case False
    with le have "?ex + 1 \<le> ?ey" by simp
    then have "(2::real) powi (?ex + 1) \<le> 2 powi ?ey" by (rule power_int_increasing) simp
    moreover from binary64_faixa(2) [OF assms(1) fx] have "binary64 x \<le> 2 powi (?ex + 1)" .
    moreover from binary64_faixa(1) [OF y fy] have "2 powi ?ey \<le> binary64 y" .
    ultimately show ?thesis by linarith
  qed
qed

lemma binary64_mono:
  assumes "x \<le> y"
  shows "binary64 x \<le> binary64 y"
proof -
  consider "0 < x" | "x = 0" | "x < 0" by linarith
  then show ?thesis
  proof cases
    case 1
    then show ?thesis using assms by (rule binary64_mono_pos)
  next
    case 2
    show ?thesis
    proof (cases "y = 0")
      case True
      then show ?thesis using 2 by simp
    next
      case False
      then have "0 < y" using assms 2 by simp
      then show ?thesis using binary64_pos [of y] 2 by (simp add: binary64_0)
    qed
  next
    case 3
    consider "y < 0" | "y = 0" | "0 < y" by linarith
    then show ?thesis
    proof cases
      case 1
      then have "0 < - y" "- y \<le> - x" using assms by simp_all
      from binary64_mono_pos [OF this] show ?thesis by (simp add: binary64_minus)
    next
      case 2
      then show ?thesis using binary64_neg [OF 3] by (simp add: binary64_0)
    next
      case 3
      from binary64_pos [OF this] binary64_neg [OF \<open>x < 0\<close>] show ?thesis by linarith
    qed
  qed
qed

lemma binary64_idem_pos:
  assumes "0 < x"
  shows "binary64 (binary64 x) = binary64 x"
proof -
  let ?e = "expoente x"
  let ?u = "(2::real) powi (?e - 52)"
  let ?n = "inteiro_par (x / ?u)"
  have u: "0 < ?u" by simp
  from expoente_faixa [OF assms] have fx: "2 powi ?e \<le> x" "x < 2 powi (?e + 1)" by simp_all
  have b: "binary64 x = of_int ?n * ?u" by (rule binary64_pos_eq [OF assms fx])
  from mantissa_faixa [OF assms fx] have n: "2 ^ 52 \<le> ?n" "?n \<le> 2 ^ 53" .
  from binary64_faixa [OF assms fx]
  have fb: "2 powi ?e \<le> binary64 x" "binary64 x \<le> 2 powi (?e + 1)" .
  have pb: "0 < binary64 x" by (rule binary64_pos [OF assms])
  show ?thesis
  proof (cases "binary64 x < 2 powi (?e + 1)")
    case True
    have "binary64 (binary64 x) = of_int (inteiro_par (binary64 x / ?u)) * ?u"
      by (rule binary64_pos_eq [OF pb fb(1) True])
    moreover have "binary64 x / ?u = of_int ?n" using u by (simp add: b)
    ultimately show ?thesis by (simp only: inteiro_par_of_int b)
  next
    case False
    with fb(2) have v: "binary64 x = 2 powi (?e + 1)" by simp
    have lt: "binary64 x < 2 powi (?e + 1 + 1)"
      unfolding v by (rule power_int_strict_increasing) simp_all
    have le: "2 powi (?e + 1) \<le> binary64 x" by (simp only: v)
    let ?u' = "(2::real) powi (?e + 1 - 52)"
    have "binary64 (binary64 x) = of_int (inteiro_par (binary64 x / ?u')) * ?u'"
      by (rule binary64_pos_eq [OF pb le lt])
    moreover have "binary64 x = 2 ^ 52 * ?u'" unfolding v by (rule dois_powi_52)
    moreover have "2 ^ 52 * ?u' / ?u' = real_of_int (2 ^ 52)" by simp
    ultimately have "binary64 (binary64 x) = of_int (inteiro_par (real_of_int (2 ^ 52))) * ?u'"
      by (simp only:)
    then have "binary64 (binary64 x) = 2 ^ 52 * ?u'"
      by (simp only: inteiro_par_of_int) simp
    also have "\<dots> = 2 powi (?e + 1)" by (rule dois_powi_52 [symmetric])
    finally show ?thesis by (simp only: v)
  qed
qed

lemma binary64_idem: "binary64 (binary64 x) = binary64 x"
proof -
  consider "0 < x" | "x = 0" | "x < 0" by linarith
  then show ?thesis
  proof cases
    case 1
    then show ?thesis by (rule binary64_idem_pos)
  next
    case 2
    then show ?thesis by (simp add: binary64_0)
  next
    case 3
    then have "0 < - x" by simp
    from binary64_idem_pos [OF this] show ?thesis by (simp add: binary64_minus)
  qed
qed


text \<open>
  Evaluation on numerals. The recursive equations of the exponent are used only on
  numerals, where their tests are decided.
\<close>

lemma expo_sobe_num:
  "expo_sobe (numeral a) = (if 2 \<le> (numeral a :: real) then expo_sobe (numeral a / 2) + 1 else 0)"
  "expo_sobe (numeral a / numeral b) =
     (if 2 \<le> (numeral a / numeral b :: real) then expo_sobe (numeral a / numeral b / 2) + 1 else 0)"
  "expo_sobe (1 / numeral b) = 0"
  "expo_sobe 1 = 0"
  by (simp_all add: expo_sobe.simps [of "numeral a"] expo_sobe.simps [of "numeral a / numeral b"]
        expo_sobe.simps [of "1 / numeral b"] expo_sobe.simps [of 1])

lemma expo_desce_num:
  "expo_desce (numeral a) = 0"
  "expo_desce (numeral a / numeral b) =
     (if 0 < (numeral a / numeral b :: real) \<and> (numeral a / numeral b :: real) < 1
      then expo_desce (2 * (numeral a / numeral b)) - 1 else 0)"
  "expo_desce (1 / numeral b) =
     (if (1 / numeral b :: real) < 1 then expo_desce (2 * (1 / numeral b)) - 1 else 0)"
  "expo_desce 1 = 0"
  by (simp_all add: expo_desce.simps [of "numeral a"] expo_desce.simps [of "numeral a / numeral b"]
        expo_desce.simps [of "1 / numeral b"] expo_desce.simps [of 1])

lemmas avaliar = binary64_def expoente_def inteiro_par_def expo_sobe_num expo_desce_num

section \<open>The resolver's loops compute a filter of the catalogue\<close>

lemma laco_bitolas_filter:
  "laco_bitolas d norma bitolas candidatos =
     candidatos @ filter (qualifica d) (map (\<lambda>(bitola, ref). (norma, bitola, ref)) bitolas)"
  by (induction bitolas arbitrary: candidatos) (auto simp: qualifica_def)

lemma entradas_externa:
  "entradas ''externa'' =
    [(''BSP'', ''1/8'', binary64 (97/10)), (''BSP'', ''1/4'', binary64 (132/10)),
     (''BSP'', ''3/8'', binary64 (167/10)), (''BSP'', ''1/2'', binary64 (209/10)),
     (''BSP'', ''3/4'', binary64 (264/10)), (''BSP'', ''1'', binary64 (332/10)),
     (''NPT'', ''1/8'', binary64 (102/10)), (''NPT'', ''1/4'', binary64 (137/10)),
     (''NPT'', ''3/8'', binary64 (171/10)), (''NPT'', ''1/2'', binary64 (213/10)),
     (''NPT'', ''3/4'', binary64 (267/10)), (''NPT'', ''1'', binary64 (335/10)),
     (''UNF'', ''1/4'', binary64 (635/100)), (''UNF'', ''3/8'', binary64 (953/100)),
     (''UNF'', ''1/2'', binary64 (127/10)), (''UNF'', ''3/4'', binary64 (1905/100)),
     (''UNF'', ''1'', binary64 (254/10))]"
  by (simp add: entradas_def TABELA_ROSCAS_def)

lemma entradas_interna:
  "entradas ''interna'' =
    [(''BSP'', ''1/8'', binary64 (85/10)), (''BSP'', ''1/4'', binary64 (118/10)),
     (''BSP'', ''3/8'', binary64 (153/10)), (''BSP'', ''1/2'', binary64 (190/10)),
     (''BSP'', ''3/4'', binary64 (245/10)), (''BSP'', ''1'', binary64 (303/10)),
     (''NPT'', ''1/8'', binary64 (87/10)), (''NPT'', ''1/4'', binary64 (119/10)),
     (''NPT'', ''3/8'', binary64 (155/10)), (''NPT'', ''1/2'', binary64 (193/10)),
     (''NPT'', ''3/4'', binary64 (249/10)), (''NPT'', ''1'', binary64 (308/10)),
     (''UNF'', ''1/4'', binary64 (58/10)), (''UNF'', ''3/8'', binary64 (88/10)),
     (''UNF'', ''1/2'', binary64 (120/10)), (''UNF'', ''3/4'', binary64 (183/10)),
     (''UNF'', ''1'', binary64 (245/10))]"
  by (simp add: entradas_def TABELA_ROSCAS_def)

lemma coletar_externa:
  "coletar_candidatos d ''externa'' = Inr (filter (qualifica d) (entradas ''externa''))"
  unfolding entradas_externa
  by (simp add: coletar_candidatos_def TABELA_ROSCAS_def getitem_def laco_bitolas_filter)

lemma coletar_interna:
  "coletar_candidatos d ''interna'' = Inr (filter (qualifica d) (entradas ''interna''))"
  unfolding entradas_interna
  by (simp add: coletar_candidatos_def TABELA_ROSCAS_def getitem_def laco_bitolas_filter)

lemma coletar_candidatos_filter:
  "coletar_candidatos d (tipo_de interna) = Inr (filter (qualifica d) (entradas (tipo_de interna)))"
  by (cases interna) (simp_all add: tipo_de_def coletar_externa coletar_interna)


section \<open>The collision-avoidance pass\<close>


lemma binary64_abs: "\<bar>binary64 x\<bar> = binary64 \<bar>x\<bar>"
proof (cases "0 \<le> x")
  case True
  from binary64_mono [OF this] have "0 \<le> binary64 x" by (simp add: binary64_0)
  then show ?thesis using True by simp
next
  case False
  then have "x < 0" by simp
  from binary64_neg [OF this] show ?thesis using False by (simp add: binary64_minus)
qed

lemma representavel_binary64: "representavel (binary64 x)"
  by (simp add: representavel_def binary64_idem)

lemma successively_nth:
  "successively P ys \<longleftrightarrow> (\<forall>i. Suc i < length ys \<longrightarrow> P (ys ! i) (ys ! Suc i))"
proof (induction P ys rule: successively.induct)
  case (1 P)
  then show ?case by simp
next
  case (2 P x)
  then show ?case by simp
next
  case (3 P x y xs)
  show ?case
  proof
    assume a: "successively P (x # y # xs)"
    then have h: "P x y"
      and t: "\<forall>i. Suc i < length (y # xs) \<longrightarrow> P ((y # xs) ! i) ((y # xs) ! Suc i)"
      using 3 by simp_all
    show "\<forall>i. Suc i < length (x # y # xs) \<longrightarrow> P ((x # y # xs) ! i) ((x # y # xs) ! Suc i)"
    proof (intro allI impI)
      fix i assume i: "Suc i < length (x # y # xs)"
      show "P ((x # y # xs) ! i) ((x # y # xs) ! Suc i)"
      proof (cases i)
        case 0
        then show ?thesis using h by simp
      next
        case (Suc j)
        then show ?thesis using t i by simp
      qed
    qed
  next
    assume a: "\<forall>i. Suc i < length (x # y # xs) \<longrightarrow> P ((x # y # xs) ! i) ((x # y # xs) ! Suc i)"
    have h: "P x y" using a [rule_format, of 0] by simp
    have "\<forall>i. Suc i < length (y # xs) \<longrightarrow> P ((y # xs) ! i) ((y # xs) ! Suc i)"
    proof (intro allI impI)
      fix i assume "Suc i < length (y # xs)"
      then show "P ((y # xs) ! i) ((y # xs) ! Suc i)"
        using a [rule_format, of "Suc i"] by simp
    qed
    then show "successively P (x # y # xs)"
      using 3 h by simp
  qed
qed

lemma laco_ajuste_ok:
  "aj \<noteq> [] \<Longrightarrow>
   \<exists>ys. laco_ajuste dm resto aj = Inr ys \<and> length ys = length aj + length resto \<and>
        take (length aj) ys = aj \<and> (espacadas dm aj \<longrightarrow> espacadas dm ys)"
proof (induction resto arbitrary: aj)
  case Nil
  then show ?case by simp
next
  case (Cons m resto)
  let ?m' = "if binary64 (m - last aj) < dm then binary64 (last aj + dm) else m"
  have ne: "aj @ [?m'] \<noteq> []" by simp
  from Cons.IH [OF ne] obtain ys where
    ys: "laco_ajuste dm resto (aj @ [?m']) = Inr ys"
        "length ys = length (aj @ [?m']) + length resto"
        "take (length (aj @ [?m'])) ys = aj @ [?m']"
        "espacadas dm (aj @ [?m']) \<longrightarrow> espacadas dm ys"
    by blast
  have step: "laco_ajuste dm (m # resto) aj = Inr ys"
    using Cons.prems ys(1) by (simp add: Let_def)
  have len: "length ys = length aj + length (m # resto)"
    using ys(2) by simp
  have "take (length aj) (take (length (aj @ [?m'])) ys) = take (length aj) (aj @ [?m'])"
    using ys(3) by simp
  then have pre: "take (length aj) ys = aj"
    by (simp add: min_def)
  have p: "passo dm (last aj) ?m'"
    by (simp add: passo_def)
  have esp: "espacadas dm aj \<longrightarrow> espacadas dm ys"
  proof
    assume "espacadas dm aj"
    then have "espacadas dm (aj @ [?m'])"
      using Cons.prems p by (simp add: espacadas_def successively_append_iff)
    with ys(4) show "espacadas dm ys" by blast
  qed
  from step len pre esp show ?case by blast
qed

lemma passo_ajuste:
  assumes "0 \<le> dm" "representavel u" "representavel m"
  shows "u \<le> (if binary64 (m - u) < dm then binary64 (u + dm) else m)"
    and "representavel (if binary64 (m - u) < dm then binary64 (u + dm) else m)"
proof -
  show "u \<le> (if binary64 (m - u) < dm then binary64 (u + dm) else m)"
  proof (cases "binary64 (m - u) < dm")
    case True
    have "u \<le> u + dm" using assms(1) by simp
    from binary64_mono [OF this] have "u \<le> binary64 (u + dm)"
      using assms(2) by (simp add: representavel_def)
    then show ?thesis using True by simp
  next
    case False
    have "u \<le> m"
    proof (rule ccontr)
      assume "\<not> u \<le> m"
      then have "m - u < 0" by simp
      from binary64_neg [OF this] False assms(1) show False by linarith
    qed
    then show ?thesis using False by simp
  qed
  show "representavel (if binary64 (m - u) < dm then binary64 (u + dm) else m)"
    using assms(3) by (simp add: representavel_binary64)
qed

lemma laco_ajuste_sorted:
  assumes "0 \<le> dm"
  shows "aj \<noteq> [] \<Longrightarrow> \<forall>x \<in> set aj. representavel x \<Longrightarrow> \<forall>x \<in> set resto. representavel x \<Longrightarrow>
         successively (\<le>) aj \<Longrightarrow> laco_ajuste dm resto aj = Inr ys \<Longrightarrow> successively (\<le>) ys"
proof (induction resto arbitrary: aj)
  case Nil
  then show ?case by simp
next
  case (Cons m resto)
  let ?m' = "if binary64 (m - last aj) < dm then binary64 (last aj + dm) else m"
  have u: "representavel (last aj)" using Cons.prems(1,2) by simp
  have m: "representavel m" using Cons.prems(3) by simp
  from passo_ajuste [OF assms u m] have le: "last aj \<le> ?m'" and r: "representavel ?m'" .
  have ne: "aj @ [?m'] \<noteq> []" by simp
  have ra: "\<forall>x \<in> set (aj @ [?m']). representavel x" using Cons.prems(2) r by simp
  have rr: "\<forall>x \<in> set resto. representavel x" using Cons.prems(3) by simp
  have s: "successively (\<le>) (aj @ [?m'])"
    using Cons.prems(1,4) le by (simp add: successively_append_iff)
  have l: "laco_ajuste dm resto (aj @ [?m']) = Inr ys"
    using Cons.prems(1,5) by (simp add: Let_def)
  from Cons.IH [OF ne ra rr s l] show ?case .
qed

lemma sorted_hd_Min: "sorted xs \<Longrightarrow> xs \<noteq> [] \<Longrightarrow> hd xs = Min (set xs)"
  by (cases xs) (auto intro!: Min_eqI [symmetric])

lemma sort_nonempty: "medidas \<noteq> [] \<Longrightarrow> \<exists>p r. sort medidas = p # r \<and> p = Min (set medidas)"
proof -
  assume ne: "medidas \<noteq> []"
  then have "sort medidas \<noteq> []"
    by (metis length_sort length_0_conv)
  then obtain p r where pr: "sort medidas = p # r" by (cases "sort medidas") auto
  have "hd (sort medidas) = Min (set (sort medidas))"
    by (rule sorted_hd_Min) (simp_all add: \<open>sort medidas \<noteq> []\<close>)
  then have "hd (sort medidas) = Min (set medidas)" by (simp only: set_sort)
  then have "p = Min (set medidas)" by (simp only: pr list.sel)
  with pr show ?thesis by blast
qed

lemma evitar_cruzamento_ok:
  assumes "medidas \<noteq> []" "0 \<le> dm" "\<forall>x \<in> set medidas. representavel x"
  shows "\<exists>ys. evitar_cruzamento medidas dm = Inr ys \<and> sorted ys \<and>
              length ys = length medidas \<and> hd ys = Min (set medidas) \<and> espacadas dm ys"
proof -
  from sort_nonempty [OF assms(1)] obtain p r where
    pr: "sort medidas = p # r" and p: "p = Min (set medidas)" by blast
  have ne: "[p] \<noteq> []" by simp
  from laco_ajuste_ok [OF ne, of dm r] obtain ys where
    ys: "laco_ajuste dm r [p] = Inr ys" "length ys = length [p] + length r"
        "take (length [p]) ys = [p]" "espacadas dm [p] \<longrightarrow> espacadas dm ys"
    by blast
  have e: "evitar_cruzamento medidas dm = Inr ys"
    using pr ys(1) by (simp add: evitar_cruzamento_def)
  have "length (sort medidas) = length medidas" by simp
  then have l: "length ys = length medidas" using ys(2) pr by simp
  have h: "hd ys = p" using ys(3) by (cases ys) simp_all
  have s: "espacadas dm ys" using ys(4) by (simp add: espacadas_def)
  have "set (sort medidas) = set medidas" by simp
  then have rs: "\<forall>x \<in> set (p # r). representavel x" using assms(3) by (simp only: pr)
  have rp: "\<forall>x \<in> set [p]. representavel x" using rs by simp
  have rr: "\<forall>x \<in> set r. representavel x" using rs by simp
  have "successively (\<le>) [p]" by simp
  from laco_ajuste_sorted [OF assms(2) ne rp rr this ys(1)]
  have "successively (\<le>) ys" .
  then have so: "sorted ys" by (simp add: successively_conv_sorted_wrt)
  from e so l h s p show ?thesis by blast
qed

section \<open>The resolver as a function of the qualifying entries\<close>

lemma evitar_cruzamento_Nil: "evitar_cruzamento [] dm = Inl IndexError"
  by (simp add: evitar_cruzamento_def)

lemma evitar_cruzamento_retorna:
  "medidas \<noteq> [] \<Longrightarrow> \<exists>ys. evitar_cruzamento medidas dm = Inr ys"
proof -
  assume ne: "medidas \<noteq> []"
  from sort_nonempty [OF ne] obtain p r where pr: "sort medidas = p # r" by blast
  have "[p] \<noteq> []" by simp
  from laco_ajuste_ok [OF this, of dm r] obtain ys where "laco_ajuste dm r [p] = Inr ys"
    by blast
  then have "evitar_cruzamento medidas dm = Inr ys"
    using pr by (simp add: evitar_cruzamento_def)
  then show ?thesis by blast
qed

lemma fator_decisao_filter:
  "fator_decisao d interna =
     (case filter (qualifica d) (entradas (tipo_de interna)) of
        [] \<Rightarrow> Inr (None, None, None, 0, tipo_de interna)
      | (norma, bitola, ref) # _ \<Rightarrow>
          Inr (Some norma, Some bitola, Some ref, 95, tipo_de interna))"
proof (cases "filter (qualifica d) (entradas (tipo_de interna))")
  case Nil
  then show ?thesis
    by (simp add: fator_decisao_def coletar_candidatos_filter)
next
  case (Cons c cs)
  then have "map (\<lambda>c. snd (snd c)) (filter (qualifica d) (entradas (tipo_de interna))) \<noteq> []"
    by simp
  from evitar_cruzamento_retorna [OF this, of distancia_minima_padrao] obtain ys where
    "evitar_cruzamento (map (\<lambda>c. snd (snd c)) (filter (qualifica d) (entradas (tipo_de interna))))
       distancia_minima_padrao = Inr ys" by blast
  then show ?thesis using Cons
    by (simp add: fator_decisao_def coletar_candidatos_filter Let_def split: prod.splits)
qed

lemma fator_decisao_sem_cruzamento_filter:
  "fator_decisao_sem_cruzamento d interna =
     (case filter (qualifica d) (entradas (tipo_de interna)) of
        [] \<Rightarrow> Inr (None, None, None, 0, tipo_de interna)
      | (norma, bitola, ref) # _ \<Rightarrow>
          Inr (Some norma, Some bitola, Some ref, 95, tipo_de interna))"
  by (simp add: fator_decisao_sem_cruzamento_def coletar_candidatos_filter Let_def
        split: list.splits)

lemma find_filter: "List.find P xs = (case filter P xs of [] \<Rightarrow> None | x # _ \<Rightarrow> Some x)"
  by (induction xs) auto


section \<open>The tolerance test on binary64 values\<close>

lemma representavel_grade:
  assumes "representavel x" "4 \<le> x"
  shows "\<exists>k::int. x = of_int k * 2 powi (- 50)"
proof -
  have x: "0 < x" using assms(2) by simp
  let ?e = "expoente x"
  from expoente_faixa [OF x] have f: "2 powi ?e \<le> x" "x < 2 powi (?e + 1)" by simp_all
  have e: "2 \<le> ?e"
  proof (rule ccontr)
    assume "\<not> 2 \<le> ?e"
    then have "?e + 1 \<le> 2" by simp
    then have "(2::real) powi (?e + 1) \<le> 2 powi 2" by (rule power_int_increasing) simp
    with f(2) assms(2) show False by simp
  qed
  let ?n = "inteiro_par (x / 2 powi (?e - 52))"
  have b: "x = of_int ?n * 2 powi (?e - 52)"
    using binary64_pos_eq [OF x f] assms(1) by (simp add: representavel_def)
  have "(2::real) powi ((?e - 2) + (- 50)) = 2 powi (?e - 2) * 2 powi (- 50)"
    by (rule power_int_add) simp
  moreover have "(?e - 2) + (- 50) = ?e - 52" by simp
  moreover have "(2::real) powi (?e - 2) = of_int (2 ^ nat (?e - 2))"
    using e by (simp add: power_int_def)
  ultimately have "(2::real) powi (?e - 52) = of_int (2 ^ nat (?e - 2)) * 2 powi (- 50)"
    by (simp only:)
  then have "x = of_int (?n * 2 ^ nat (?e - 2)) * 2 powi (- 50)"
    using b by (simp only: of_int_mult mult.assoc)
  then show ?thesis ..
qed

lemma binary64_tolerancia: "binary64 (3/10) = 5404319552844595 / 2 ^ 54"
  by (simp add: avaliar)

lemma binary64_acima_tolerancia:
  "binary64 (337769972052788 / 2 ^ 50) = 337769972052788 / 2 ^ 50"
  by (simp add: avaliar)

lemma desvio_na_grade:
  assumes "representavel m" "representavel ref" "5 \<le> ref" "\<bar>m - ref\<bar> \<le> 1"
  shows "\<bar>m - ref\<bar> \<le> 337769972052787 / 2 ^ 50 \<or> 337769972052788 / 2 ^ 50 \<le> \<bar>m - ref\<bar>"
proof -
  have "4 \<le> m" using assms(3,4) by linarith
  from representavel_grade [OF assms(1) this] obtain k :: int
    where k: "m = of_int k * 2 powi (- 50)" ..
  have "4 \<le> ref" using assms(3) by simp
  from representavel_grade [OF assms(2) this] obtain j :: int
    where j: "ref = of_int j * 2 powi (- 50)" ..
  have p: "(2::real) powi (- 50) = 1 / 2 ^ 50" by (simp add: power_int_def field_simps)
  have d: "\<bar>m - ref\<bar> = of_int \<bar>k - j\<bar> / 2 ^ 50"
    unfolding k j p by (simp add: abs_divide flip: diff_divide_distrib)
  show ?thesis
  proof (cases "\<bar>k - j\<bar> \<le> 337769972052787")
    case True
    then have "real_of_int \<bar>k - j\<bar> \<le> 337769972052787" by linarith
    then have "of_int \<bar>k - j\<bar> / 2 ^ 50 \<le> (337769972052787::real) / 2 ^ 50"
      by (simp add: divide_right_mono)
    then show ?thesis by (simp only: d) simp
  next
    case False
    then have "337769972052788 \<le> \<bar>k - j\<bar>" by simp
    then have "337769972052788 \<le> real_of_int \<bar>k - j\<bar>" by linarith
    then have "(337769972052788::real) / 2 ^ 50 \<le> of_int \<bar>k - j\<bar> / 2 ^ 50"
      by (simp add: divide_right_mono)
    then show ?thesis by (simp only: d) simp
  qed
qed

lemma teste_tolerancia:
  assumes "representavel m" "representavel ref" "5 \<le> ref"
  shows "\<bar>binary64 (m - ref)\<bar> \<le> binary64 (3/10) \<longleftrightarrow> \<bar>m - ref\<bar> \<le> 3/10"
proof
  assume t: "\<bar>binary64 (m - ref)\<bar> \<le> binary64 (3/10)"
  show "\<bar>m - ref\<bar> \<le> 3/10"
  proof (rule ccontr)
    assume n: "\<not> \<bar>m - ref\<bar> \<le> 3/10"
    have g: "337769972052788 / 2 ^ 50 \<le> \<bar>m - ref\<bar>"
    proof (cases "\<bar>m - ref\<bar> \<le> 1")
      case True
      from desvio_na_grade [OF assms True] n show ?thesis by auto
    next
      case False
      then show ?thesis by simp
    qed
    from binary64_mono [OF g]
    have "337769972052788 / 2 ^ 50 \<le> binary64 \<bar>m - ref\<bar>"
      by (simp only: binary64_acima_tolerancia)
    then have "337769972052788 / 2 ^ 50 \<le> \<bar>binary64 (m - ref)\<bar>"
      by (simp only: binary64_abs)
    with t show False by (simp add: binary64_tolerancia)
  qed
next
  assume le: "\<bar>m - ref\<bar> \<le> 3/10"
  then have "\<bar>m - ref\<bar> \<le> 1" by simp
  from desvio_na_grade [OF assms this] le
  have "\<bar>m - ref\<bar> \<le> 337769972052787 / 2 ^ 50" by auto
  then have "\<bar>m - ref\<bar> \<le> binary64 (3/10)" by (simp add: binary64_tolerancia)
  from binary64_mono [OF this]
  have "binary64 \<bar>m - ref\<bar> \<le> binary64 (3/10)" by (simp only: binary64_idem)
  then show "\<bar>binary64 (m - ref)\<bar> \<le> binary64 (3/10)" by (simp only: binary64_abs)
qed

lemma entradas_representaveis:
  assumes "(norma, bitola, ref) \<in> set (entradas (tipo_de interna))"
  shows "representavel ref \<and> 5 \<le> ref"
proof (cases interna)
  case True
  then have "(norma, bitola, ref) \<in> set (entradas ''interna'')"
    using assms by (simp add: tipo_de_def)
  then have "\<exists>q. ref = binary64 q \<and> 58/10 \<le> q"
    unfolding entradas_interna by auto
  then obtain q where q: "ref = binary64 q" "58/10 \<le> q" by blast
  have "(5::real) \<le> q" using q(2) by simp
  from binary64_mono [OF this] have "5 \<le> ref"
    unfolding q(1) by (simp add: avaliar)
  then show ?thesis by (simp add: q(1) representavel_binary64)
next
  case False
  then have "(norma, bitola, ref) \<in> set (entradas ''externa'')"
    using assms by (simp add: tipo_de_def)
  then have "\<exists>q. ref = binary64 q \<and> 635/100 \<le> q"
    unfolding entradas_externa by auto
  then obtain q where q: "ref = binary64 q" "635/100 \<le> q" by blast
  have "(5::real) \<le> q" using q(2) by simp
  from binary64_mono [OF this] have "5 \<le> ref"
    unfolding q(1) by (simp add: avaliar)
  then show ?thesis by (simp add: q(1) representavel_binary64)
qed

section \<open>The measurement pipeline, case by case\<close>

lemma py_max_Max:
  assumes "xs \<noteq> []"
  shows "py_max xs = Inr (Max (set xs))"
proof (cases xs)
  case Nil
  then show ?thesis using assms by simp
next
  case (Cons x resto)
  have "Max (set (x # resto)) = fold max resto x" by (rule Max.set_eq_fold)
  then show ?thesis using Cons by (simp only: py_max_def list.case)
qed

lemma calcular_diametro_px_Some:
  "cs \<noteq> [] \<Longrightarrow> calcular_diametro_px (Some cs) = Inr (Max (set (raios cs)) * 2)"
  by (simp add: calcular_diametro_px_def py_max_Max raios_def)

lemma laco_contornos_faixa:
  "largura = 0 \<or> (80 < largura \<and> largura < 1200) \<Longrightarrow>
   laco_contornos rs largura = 0 \<or> (80 < laco_contornos rs largura \<and> laco_contornos rs largura < 1200)"
  by (induction rs largura rule: laco_contornos.induct) (auto simp: max_def)

lemma laco_contornos_nenhum:
  "\<forall>(x, y, w, h) \<in> set rs. \<not> (80 < w \<and> w < 1200 \<and> 40 < h \<and> h < 800) \<Longrightarrow>
   laco_contornos rs largura = largura"
  by (induction rs largura rule: laco_contornos.induct) auto

lemma calcular_escala_pos:
  "0 < W \<Longrightarrow> calcular_escala W = Inr (86 / of_int W)"
  by (simp add: calcular_escala_def py_div_def)

lemma medir_diametro_None: "medir_diametro None rs = Inr (- 1)"
  by (simp add: medir_diametro_def calcular_diametro_px_def)

lemma medir_diametro_largura_zero:
  "cs \<noteq> [] \<Longrightarrow> laco_contornos rs 0 = 0 \<Longrightarrow> medir_diametro (Some cs) rs = Inr (- 1)"
  by (simp add: medir_diametro_def calcular_diametro_px_Some)

lemma medir_diametro_valido:
  "cs \<noteq> [] \<Longrightarrow> laco_contornos rs 0 \<noteq> 0 \<Longrightarrow>
   medir_diametro (Some cs) rs =
     Inr (of_int (Max (set (raios cs)) * 2) * (86 / of_int (laco_contornos rs 0)))"
  by (simp add: medir_diametro_def calcular_diametro_px_Some calcular_escala_def py_div_def Let_def)

lemma medir_diametro_vazio: "medir_diametro (Some []) rs = Inl ValueError"
  by (simp add: medir_diametro_def calcular_diametro_px_def py_max_def raios_def)


lemma distancia_minima_padrao_nonneg: "0 \<le> distancia_minima_padrao"
  unfolding distancia_minima_padrao_def using binary64_mono [of 0 "2/10"] by (simp add: binary64_0)

section \<open>Properties of the specification\<close>

text \<open>
  C1 (Scenario B, as the code has it). For an external bore with measured diameter
  20.9 the resolver returns standard BSP, reference diameter 20.9 and confidence 95.0
  with the nominal size "1/2": in \<open>TABELA_ROSCAS\<close> the external BSP diameter 20.9 belongs
  to "1/2", and "3/4" is 26.4.
\<close>

theorem cenario_B_bitola_meia:
  "fator_decisao (binary64 (209/10)) False =
     Inr (Some ''BSP'', Some ''1/2'', Some (binary64 (209/10)), 95, ''externa'')"
  by (simp add: fator_decisao_filter tipo_de_def entradas_externa qualifica_def avaliar)

text \<open>
  C1 as the specification states it (nominal size "3/4") is not what the resolver
  returns for 20.9.
\<close>

theorem cenario_B_nao_tres_quartos:
  "fator_decisao (binary64 (209/10)) False \<noteq>
     Inr (Some ''BSP'', Some ''3/4'', Some (binary64 (209/10)), 95, ''externa'')"
  by (simp add: fator_decisao_filter tipo_de_def entradas_externa qualifica_def avaliar)

text \<open>
  C2 (collision-avoidance postcondition, as binary64 arithmetic gives it). For every
  non-empty list of floats, \<open>evitar_cruzamento\<close> with the default spacing returns a list
  that is sorted ascending, has the length of the input and starts with the smallest
  input element; and every later element is either at least 0.2 above its predecessor as
  the subtraction of line 42 computes the difference, or the sum of its predecessor and
  0.2 as line 43 computes it.
\<close>

theorem evitar_cruzamento_poscondicao:
  assumes "medidas \<noteq> []" "\<forall>x \<in> set medidas. representavel x"
  shows "\<exists>ys. evitar_cruzamento medidas distancia_minima_padrao = Inr ys \<and> sorted ys \<and>
           length ys = length medidas \<and> hd ys = Min (set medidas) \<and>
           (\<forall>i. Suc i < length ys \<longrightarrow>
              distancia_minima_padrao \<le> binary64 (ys ! Suc i - ys ! i) \<or>
              ys ! Suc i = binary64 (ys ! i + distancia_minima_padrao))"
proof -
  from evitar_cruzamento_ok [OF assms(1) distancia_minima_padrao_nonneg assms(2)] obtain ys where
    ys: "evitar_cruzamento medidas distancia_minima_padrao = Inr ys" "sorted ys"
        "length ys = length medidas" "hd ys = Min (set medidas)"
        "espacadas distancia_minima_padrao ys" by blast
  from ys(5) have "\<forall>i. Suc i < length ys \<longrightarrow>
              distancia_minima_padrao \<le> binary64 (ys ! Suc i - ys ! i) \<or>
              ys ! Suc i = binary64 (ys ! i + distancia_minima_padrao)"
    by (simp add: espacadas_def successively_nth passo_def)
  with ys(1-4) show ?thesis by blast
qed

theorem evitar_cruzamento_poscondicao_witness:
  "[3, 1, binary64 (11/10), binary64 (115/100), 2] \<noteq> [] \<and>
   \<not> (\<exists>x \<in> set [3, 1, binary64 (11/10), binary64 (115/100), 2]. \<not> representavel x) \<and>
   (\<exists>ys. evitar_cruzamento [3, 1, binary64 (11/10), binary64 (115/100), 2]
            distancia_minima_padrao = Inr ys \<and>
         sorted ys \<and>
         length ys = length [3, 1, binary64 (11/10), binary64 (115/100), 2] \<and>
         hd ys = Min (set [3, 1, binary64 (11/10), binary64 (115/100), 2]) \<and>
         (\<forall>i. Suc i < length ys \<longrightarrow>
            distancia_minima_padrao \<le> binary64 (ys ! Suc i - ys ! i) \<or>
            ys ! Suc i = binary64 (ys ! i + distancia_minima_padrao))) \<and>
   evitar_cruzamento [3, 1, binary64 (11/10), binary64 (115/100), 2] distancia_minima_padrao =
     Inr [1, binary64 (12/10), binary64 (14/10), 2, 3]"
proof -
  have h: "[3, 1, binary64 (11/10), binary64 (115/100), 2] \<noteq> []" by simp
  have r1: "representavel 1" "representavel 2" "representavel 3"
    by (simp_all add: representavel_def avaliar)
  have r: "\<forall>x \<in> set [3, 1, binary64 (11/10), binary64 (115/100), 2]. representavel x"
    using r1 by (simp add: representavel_binary64)
  have v: "evitar_cruzamento [3, 1, binary64 (11/10), binary64 (115/100), 2]
             distancia_minima_padrao = Inr [1, binary64 (12/10), binary64 (14/10), 2, 3]"
    by (simp add: evitar_cruzamento_def distancia_minima_padrao_def avaliar)
  from h r evitar_cruzamento_poscondicao [OF h r] v show ?thesis by blast
qed

text \<open>
  C2 as the specification states it fails twice. On the empty list
  \<^verbatim>\<open>medidas_ordenadas[0]\<close> raises \<^verbatim>\<open>IndexError\<close> and no list is returned. And the sum of
  line 43 is rounded: for \<^verbatim>\<open>[1.0, 1.1]\<close> the result is \<^verbatim>\<open>[1.0, 1.2]\<close>, and the float
  \<^verbatim>\<open>1.2\<close> is less than 0.2 above 1.
\<close>

theorem evitar_cruzamento_vazia_e_arredondamento:
  "evitar_cruzamento [] distancia_minima_padrao = Inl IndexError \<and>
   evitar_cruzamento [1, binary64 (11/10)] distancia_minima_padrao = Inr [1, binary64 (12/10)] \<and>
   binary64 (12/10) - 1 < 2/10"
  by (simp add: evitar_cruzamento_def distancia_minima_padrao_def avaliar)

text \<open>
  C3 (first qualifying entry; the pass does not influence the selection). For every
  measured diameter and bore kind the resolver returns what the resolver without the
  collision-avoidance pass returns; and when at least one catalogue entry qualifies, the
  result is the first qualifying entry in declaration order, with confidence 95.0.
\<close>

theorem fator_decisao_primeiro_qualificado:
  "fator_decisao d interna = fator_decisao_sem_cruzamento d interna \<and>
   ((\<exists>c \<in> set (entradas (tipo_de interna)). qualifica d c) \<longrightarrow>
    (\<exists>norma bitola ref.
       List.find (qualifica d) (entradas (tipo_de interna)) = Some (norma, bitola, ref) \<and>
       fator_decisao d interna =
         Inr (Some norma, Some bitola, Some ref, 95, tipo_de interna)))"
proof
  show "fator_decisao d interna = fator_decisao_sem_cruzamento d interna"
    by (simp only: fator_decisao_filter fator_decisao_sem_cruzamento_filter)
next
  show "(\<exists>c \<in> set (entradas (tipo_de interna)). qualifica d c) \<longrightarrow>
    (\<exists>norma bitola ref.
       List.find (qualifica d) (entradas (tipo_de interna)) = Some (norma, bitola, ref) \<and>
       fator_decisao d interna =
         Inr (Some norma, Some bitola, Some ref, 95, tipo_de interna))"
  proof
    assume "\<exists>c \<in> set (entradas (tipo_de interna)). qualifica d c"
    then have "filter (qualifica d) (entradas (tipo_de interna)) \<noteq> []"
      by (simp add: filter_empty_conv)
    then obtain c cs where f: "filter (qualifica d) (entradas (tipo_de interna)) = c # cs"
      by (cases "filter (qualifica d) (entradas (tipo_de interna))") auto
    obtain norma bitola ref where c: "c = (norma, bitola, ref)" by (cases c) auto
    have "List.find (qualifica d) (entradas (tipo_de interna)) = Some (norma, bitola, ref)"
      using f c by (simp add: find_filter)
    moreover have "fator_decisao d interna =
         Inr (Some norma, Some bitola, Some ref, 95, tipo_de interna)"
      using f c by (simp add: fator_decisao_filter)
    ultimately show "\<exists>norma bitola ref.
       List.find (qualifica d) (entradas (tipo_de interna)) = Some (norma, bitola, ref) \<and>
       fator_decisao d interna =
         Inr (Some norma, Some bitola, Some ref, 95, tipo_de interna)" by blast
  qed
qed

theorem fator_decisao_primeiro_qualificado_witness:
  "(\<exists>c \<in> set (entradas (tipo_de False)). qualifica (binary64 (1345/100)) c) \<and>
   filter (qualifica (binary64 (1345/100))) (entradas (tipo_de False)) =
     [(''BSP'', ''1/4'', binary64 (132/10)), (''NPT'', ''1/4'', binary64 (137/10))] \<and>
   fator_decisao (binary64 (1345/100)) False =
     fator_decisao_sem_cruzamento (binary64 (1345/100)) False \<and>
   fator_decisao (binary64 (1345/100)) False =
     Inr (Some ''BSP'', Some ''1/4'', Some (binary64 (132/10)), 95, ''externa'') \<and>
   (\<exists>c \<in> set (entradas (tipo_de False)). qualifica (binary64 (212/10)) c) \<and>
   fator_decisao (binary64 (212/10)) False =
     Inr (Some ''NPT'', Some ''1/2'', Some (binary64 (213/10)), 95, ''externa'')"
proof -
  have f: "filter (qualifica (binary64 (1345/100))) (entradas (tipo_de False)) =
     [(''BSP'', ''1/4'', binary64 (132/10)), (''NPT'', ''1/4'', binary64 (137/10))]"
    by (simp add: tipo_de_def entradas_externa qualifica_def avaliar)
  have g: "filter (qualifica (binary64 (212/10))) (entradas (tipo_de False)) =
     [(''NPT'', ''1/2'', binary64 (213/10))]"
    by (simp add: tipo_de_def entradas_externa qualifica_def avaliar)
  have h: "\<exists>c \<in> set (entradas (tipo_de False)). qualifica (binary64 (1345/100)) c"
  proof -
    have "(''BSP'', ''1/4'', binary64 (132/10)) \<in>
            set (filter (qualifica (binary64 (1345/100))) (entradas (tipo_de False)))"
      by (simp only: f) simp
    then show ?thesis by auto
  qed
  have k: "\<exists>c \<in> set (entradas (tipo_de False)). qualifica (binary64 (212/10)) c"
  proof -
    have "(''NPT'', ''1/2'', binary64 (213/10)) \<in>
            set (filter (qualifica (binary64 (212/10))) (entradas (tipo_de False)))"
      by (simp only: g) simp
    then show ?thesis by auto
  qed
  have fi: "List.find (qualifica (binary64 (1345/100))) (entradas (tipo_de False)) =
      Some (''BSP'', ''1/4'', binary64 (132/10))"
    by (simp only: find_filter f list.case)
  have gi: "List.find (qualifica (binary64 (212/10))) (entradas (tipo_de False)) =
      Some (''NPT'', ''1/2'', binary64 (213/10))"
    by (simp only: find_filter g list.case)
  from fator_decisao_primeiro_qualificado [of "binary64 (1345/100)" False] h
  obtain norma bitola ref where
    e: "fator_decisao (binary64 (1345/100)) False =
          fator_decisao_sem_cruzamento (binary64 (1345/100)) False"
    and r: "List.find (qualifica (binary64 (1345/100))) (entradas (tipo_de False)) =
              Some (norma, bitola, ref)"
           "fator_decisao (binary64 (1345/100)) False =
              Inr (Some norma, Some bitola, Some ref, 95, tipo_de False)"
    by blast
  from r(1) fi have "(norma, bitola, ref) = (''BSP'', ''1/4'', binary64 (132/10))"
    by (simp only: option.inject)
  with r(2) have a: "fator_decisao (binary64 (1345/100)) False =
     Inr (Some ''BSP'', Some ''1/4'', Some (binary64 (132/10)), 95, ''externa'')"
    by (simp add: tipo_de_def)
  from fator_decisao_primeiro_qualificado [of "binary64 (212/10)" False] k
  obtain norma' bitola' ref' where
    r': "List.find (qualifica (binary64 (212/10))) (entradas (tipo_de False)) =
              Some (norma', bitola', ref')"
        "fator_decisao (binary64 (212/10)) False =
              Inr (Some norma', Some bitola', Some ref', 95, tipo_de False)"
    by blast
  from r'(1) gi have "(norma', bitola', ref') = (''NPT'', ''1/2'', binary64 (213/10))"
    by (simp only: option.inject)
  with r'(2) have b: "fator_decisao (binary64 (212/10)) False =
     Inr (Some ''NPT'', Some ''1/2'', Some (binary64 (213/10)), 95, ''externa'')"
    by (simp add: tipo_de_def)
  from h f e a k b show ?thesis by blast
qed

text \<open>
  C4 (the tolerance test, on the floats). For every catalogue entry, with \<open>ref\<close> the float
  of its table value, and every float \<open>m\<close>, the measured diameter \<open>m\<close> puts the entry in
  the candidate list exactly when the exact deviation \<open>\<bar>m - ref\<bar>\<close> is at most 0.3: the test
  is symmetric, a deviation strictly greater than 0.3 never qualifies, and every
  deviation up to 0.3 does.
\<close>

theorem qualificacao_tolerancia_binary64:
  assumes "(norma, bitola, ref) \<in> set (entradas (tipo_de interna))" "representavel m"
  shows "\<exists>cs. coletar_candidatos m (tipo_de interna) = Inr cs \<and>
              ((norma, bitola, ref) \<in> set cs \<longleftrightarrow> \<bar>m - ref\<bar> \<le> 3/10)"
proof -
  from entradas_representaveis [OF assms(1)] have r: "representavel ref" "5 \<le> ref" by simp_all
  from teste_tolerancia [OF assms(2) r]
  have "qualifica m (norma, bitola, ref) \<longleftrightarrow> \<bar>m - ref\<bar> \<le> 3/10"
    by (simp add: qualifica_def)
  then show ?thesis using assms(1) by (simp add: coletar_candidatos_filter)
qed

theorem qualificacao_tolerancia_binary64_witness:
  "(''UNF'', ''1/4'', binary64 (58/10)) \<in> set (entradas (tipo_de True)) \<and>
   representavel (binary64 (61/10)) \<and>
   \<bar>binary64 (61/10) - binary64 (58/10)\<bar> \<le> 3/10 \<and>
   (\<exists>cs. coletar_candidatos (binary64 (61/10)) (tipo_de True) = Inr cs \<and>
         (''UNF'', ''1/4'', binary64 (58/10)) \<in> set cs) \<and>
   (''BSP'', ''3/8'', binary64 (153/10)) \<in> set (entradas (tipo_de True)) \<and>
   representavel 15 \<and>
   3/10 < \<bar>15 - binary64 (153/10)\<bar> \<and>
   (\<exists>cs. coletar_candidatos 15 (tipo_de True) = Inr cs \<and>
         (''BSP'', ''3/8'', binary64 (153/10)) \<notin> set cs)"
proof -
  have h1: "(''UNF'', ''1/4'', binary64 (58/10)) \<in> set (entradas (tipo_de True))"
    by (simp add: tipo_de_def entradas_interna)
  have r1: "representavel (binary64 (61/10))" by (rule representavel_binary64)
  have d1: "\<bar>binary64 (61/10) - binary64 (58/10)\<bar> \<le> 3/10" by (simp add: avaliar)
  have h2: "(''BSP'', ''3/8'', binary64 (153/10)) \<in> set (entradas (tipo_de True))"
    by (simp add: tipo_de_def entradas_interna)
  have r2: "representavel 15" by (simp add: representavel_def avaliar)
  have d2: "3/10 < \<bar>15 - binary64 (153/10)\<bar>" by (simp add: avaliar)
  from qualificacao_tolerancia_binary64 [OF h1 r1] qualificacao_tolerancia_binary64 [OF h2 r2]
       h1 r1 d1 h2 r2 d2
  show ?thesis by (metis not_le)
qed

text \<open>
  C4 as the specification states it, with \<open>d + 0.3\<close> and \<open>d - 0.3\<close> qualifying, fails: the
  float \<^verbatim>\<open>15.3 - 0.3\<close> is 15.0, which does not qualify the internal BSP entry 15.3 (the
  float of 15.3 is more than 0.3 above 15), and the float \<^verbatim>\<open>20.9 + 0.3\<close> does not qualify
  the external BSP entry 20.9.
\<close>

theorem limite_decimal_nao_qualifica:
  "binary64 (binary64 (153/10) - binary64 (3/10)) = 15 \<and>
   (''BSP'', ''3/8'', binary64 (153/10)) \<in> set (entradas ''interna'') \<and>
   coletar_candidatos 15 ''interna'' = Inr [] \<and>
   (''BSP'', ''1/2'', binary64 (209/10)) \<in> set (entradas ''externa'') \<and>
   coletar_candidatos (binary64 (binary64 (209/10) + binary64 (3/10))) ''externa'' =
     Inr [(''NPT'', ''1/2'', binary64 (213/10))]"
  by (simp add: coletar_externa coletar_interna entradas_externa entradas_interna
        qualifica_def avaliar)

text \<open>
  C5 (no match and fixed confidence). If no catalogue entry qualifies, the resolver
  returns the no-match tuple with confidence 0.0; if any entry qualifies, the returned
  match has confidence 95.0, whatever the deviation.
\<close>

theorem fator_decisao_confianca:
  "((\<forall>c \<in> set (entradas (tipo_de interna)). \<not> qualifica d c) \<longrightarrow>
      fator_decisao d interna = Inr (None, None, None, 0, tipo_de interna)) \<and>
   ((\<exists>c \<in> set (entradas (tipo_de interna)). qualifica d c) \<longrightarrow>
      (\<exists>norma bitola ref. fator_decisao d interna =
         Inr (Some norma, Some bitola, Some ref, 95, tipo_de interna)))"
proof (cases "filter (qualifica d) (entradas (tipo_de interna))")
  case Nil
  then have "\<forall>c \<in> set (entradas (tipo_de interna)). \<not> qualifica d c"
    by (simp add: filter_empty_conv)
  then show ?thesis using Nil by (auto simp: fator_decisao_filter)
next
  case (Cons c cs)
  then have "c \<in> set (filter (qualifica d) (entradas (tipo_de interna)))" by simp
  then have "\<exists>c \<in> set (entradas (tipo_de interna)). qualifica d c" by auto
  then show ?thesis using Cons by (cases c) (auto simp: fator_decisao_filter)
qed

theorem fator_decisao_confianca_witness:
  "\<not> (\<exists>c \<in> set (entradas (tipo_de True)). qualifica 18 c) \<and>
   fator_decisao 18 True = Inr (None, None, None, 0, tipo_de True) \<and>
   (\<exists>c \<in> set (entradas (tipo_de False)). qualifica (binary64 (211/10)) c) \<and>
   (\<exists>norma bitola ref. fator_decisao (binary64 (211/10)) False =
         Inr (Some norma, Some bitola, Some ref, 95, tipo_de False))"
proof -
  have h1: "\<forall>c \<in> set (entradas (tipo_de True)). \<not> qualifica 18 c"
    by (simp add: tipo_de_def entradas_interna qualifica_def avaliar)
  have h2: "\<exists>c \<in> set (entradas (tipo_de False)). qualifica (binary64 (211/10)) c"
    by (simp add: tipo_de_def entradas_externa qualifica_def avaliar)
  from fator_decisao_confianca [of True 18]
       fator_decisao_confianca [of False "binary64 (211/10)"] h1 h2
  show ?thesis by blast
qed






text \<open>
  C8 (no feature found). When \<^verbatim>\<open>HoughCircles\<close> returns \<^verbatim>\<open>None\<close> the pipeline returns the
  no-measurement value \<open>-1\<close> whatever the contours are; and when circles were detected but
  no bounding box has width in (80, 1200) and height in (40, 800), it returns \<open>-1\<close> too.
  (\<^verbatim>\<open>HoughCircles\<close> returns \<^verbatim>\<open>None\<close>, not an empty array, when it finds nothing; on an
  empty array \<^verbatim>\<open>max\<close> would raise.)
\<close>

theorem medir_diametro_sem_deteccao:
  "medir_diametro None rs = Inr (- 1) \<and>
   (cs \<noteq> [] \<longrightarrow>
    (\<forall>(x, y, w, h) \<in> set rs. \<not> (80 < w \<and> w < 1200 \<and> 40 < h \<and> h < 800)) \<longrightarrow>
    medir_diametro (Some cs) rs = Inr (- 1))"
proof (intro conjI impI)
  show "medir_diametro None rs = Inr (- 1)" by (rule medir_diametro_None)
next
  assume cs: "cs \<noteq> []"
    and f: "\<forall>(x, y, w, h) \<in> set rs. \<not> (80 < w \<and> w < 1200 \<and> 40 < h \<and> h < 800)"
  from laco_contornos_nenhum [OF f] have "laco_contornos rs 0 = 0" .
  from medir_diametro_largura_zero [OF cs this]
  show "medir_diametro (Some cs) rs = Inr (- 1)" .
qed

theorem medir_diametro_sem_deteccao_witness:
  "medir_diametro None [(10, 10, 860, 540)] = Inr (- 1) \<and>
   [(0, 0, 100)] \<noteq> ([] :: circulo list) \<and>
   \<not> (\<exists>(x, y, w, h) \<in> set ([(0, 0, 60, 500), (0, 0, 900, 900), (3, 4, 1200, 100)] :: retangulo list).
         80 < w \<and> w < 1200 \<and> 40 < h \<and> h < 800) \<and>
   medir_diametro (Some [(0, 0, 100)]) [(0, 0, 60, 500), (0, 0, 900, 900), (3, 4, 1200, 100)]
     = Inr (- 1)"
proof -
  have h1: "[(0, 0, 100)] \<noteq> ([] :: circulo list)" by simp
  have h2: "\<forall>(x, y, w, h) \<in> set ([(0, 0, 60, 500), (0, 0, 900, 900), (3, 4, 1200, 100)] :: retangulo list).
       \<not> (80 < w \<and> w < 1200 \<and> 40 < h \<and> h < 800)" by simp
  have h3: "\<not> (\<exists>(x, y, w, h) \<in> set ([(0, 0, 60, 500), (0, 0, 900, 900), (3, 4, 1200, 100)] :: retangulo list).
         80 < w \<and> w < 1200 \<and> 40 < h \<and> h < 800)" by simp
  from medir_diametro_sem_deteccao [of "[(10, 10, 860, 540)]" "[(0, 0, 100)]"]
       medir_diametro_sem_deteccao
         [of "[(0, 0, 60, 500), (0, 0, 900, 900), (3, 4, 1200, 100)]" "[(0, 0, 100)]"] h1 h2 h3
  show ?thesis by blast
qed

text \<open>
  C9 (the division is guarded). The pipeline never fails with \<^verbatim>\<open>ZeroDivisionError\<close>,
  although the division itself would on a zero width: the accepted width is either 0 or
  greater than 80, the division succeeds whenever the width is not 0, and when no circle
  or no reference was found the result is never 0 (it is the distinct value \<open>-1\<close>).
\<close>

theorem divisao_protegida:
  "medir_diametro circles rs \<noteq> Inl ZeroDivisionError \<and>
   calcular_escala 0 = Inl ZeroDivisionError \<and>
   (laco_contornos rs 0 = 0 \<or> 80 < laco_contornos rs 0) \<and>
   (laco_contornos rs 0 \<noteq> 0 \<longrightarrow>
      (\<exists>escala. calcular_escala (laco_contornos rs 0) = Inr escala)) \<and>
   (laco_contornos rs 0 = 0 \<and> circles \<noteq> Some [] \<longrightarrow> medir_diametro circles rs = Inr (- 1)) \<and>
   (circles = None \<or> laco_contornos rs 0 = 0 \<longrightarrow> medir_diametro circles rs \<noteq> Inr 0)"
proof -
  from laco_contornos_faixa [of 0 rs]
  have faixa: "laco_contornos rs 0 = 0 \<or> 80 < laco_contornos rs 0" by auto
  have esc: "laco_contornos rs 0 \<noteq> 0 \<longrightarrow>
      (\<exists>escala. calcular_escala (laco_contornos rs 0) = Inr escala)"
    using faixa by (auto simp: calcular_escala_pos)
  have z: "calcular_escala 0 = Inl ZeroDivisionError"
    by (simp add: calcular_escala_def py_div_def)
  have nd: "medir_diametro circles rs \<noteq> Inl ZeroDivisionError"
  proof (cases circles)
    case None
    then show ?thesis by (simp add: medir_diametro_None)
  next
    case (Some cs)
    show ?thesis
    proof (cases "cs = []")
      case True
      then show ?thesis using Some by (simp add: medir_diametro_vazio)
    next
      case False
      show ?thesis
      proof (cases "laco_contornos rs 0 = 0")
        case True
        then show ?thesis using Some False by (simp add: medir_diametro_largura_zero)
      next
        case nz: False
        then show ?thesis using Some False by (simp add: medir_diametro_valido)
      qed
    qed
  qed
  have sentinela:
    "laco_contornos rs 0 = 0 \<and> circles \<noteq> Some [] \<longrightarrow> medir_diametro circles rs = Inr (- 1)"
  proof
    assume a: "laco_contornos rs 0 = 0 \<and> circles \<noteq> Some []"
    show "medir_diametro circles rs = Inr (- 1)"
    proof (cases circles)
      case None
      then show ?thesis by (simp add: medir_diametro_None)
    next
      case (Some cs)
      with a have "cs \<noteq> []" by simp
      from medir_diametro_largura_zero [OF this] a Some show ?thesis by simp
    qed
  qed
  have nzero: "circles = None \<or> laco_contornos rs 0 = 0 \<longrightarrow> medir_diametro circles rs \<noteq> Inr 0"
  proof
    assume a: "circles = None \<or> laco_contornos rs 0 = 0"
    show "medir_diametro circles rs \<noteq> Inr 0"
    proof (cases circles)
      case None
      then show ?thesis by (simp add: medir_diametro_None)
    next
      case (Some cs)
      with a have l: "laco_contornos rs 0 = 0" by simp
      show ?thesis
      proof (cases "cs = []")
        case True
        then show ?thesis using Some by (simp add: medir_diametro_vazio)
      next
        case False
        then show ?thesis using Some l by (simp add: medir_diametro_largura_zero)
      qed
    qed
  qed
  from nd z faixa esc sentinela nzero show ?thesis by blast
qed

theorem divisao_protegida_witness:
  "laco_contornos [(0, 0, 60, 500)] 0 = 0 \<and>
   Some [(0, 0, 100)] \<noteq> Some ([] :: circulo list) \<and>
   medir_diametro (Some [(0, 0, 100)]) [(0, 0, 60, 500)] = Inr (- 1) \<and>
   medir_diametro (Some [(0, 0, 100)]) [(0, 0, 60, 500)] \<noteq> Inr 0 \<and>
   medir_diametro (Some [(0, 0, 100)]) [(0, 0, 60, 500)] \<noteq> Inl ZeroDivisionError \<and>
   laco_contornos [(10, 10, 860, 540)] 0 \<noteq> 0 \<and>
   (\<exists>escala. calcular_escala (laco_contornos [(10, 10, 860, 540)] 0) = Inr escala)"
proof -
  have l: "laco_contornos [(0, 0, 60, 500)] 0 = 0" by simp
  have c: "Some [(0, 0, 100)] \<noteq> Some ([] :: circulo list)" by simp
  have n: "laco_contornos [(10, 10, 860, 540)] 0 \<noteq> 0" by simp
  from divisao_protegida [of "Some [(0, 0, 100)]" "[(0, 0, 60, 500)]"]
       divisao_protegida [of "Some [(0, 0, 100)]" "[(10, 10, 860, 540)]"] l c n
  show ?thesis by blast
qed

text \<open>
  C10 (the empty list never reaches the pass). \<open>evitar_cruzamento\<close> raises
  \<^verbatim>\<open>IndexError\<close> on the empty list, and for every measured diameter and bore kind the
  resolver returns a result: the guard on \<^verbatim>\<open>candidatos\<close> returns before the call, so
  the error of the pass is never propagated.
\<close>

theorem fator_decisao_nunca_lista_vazia:
  "evitar_cruzamento [] dm = Inl IndexError \<and>
   fator_decisao d interna \<noteq> Inl IndexError \<and>
   (\<exists>r. fator_decisao d interna = Inr r)"
  by (auto simp: evitar_cruzamento_Nil fator_decisao_filter split: list.splits)

end
